theory Spec2Isabelle
  imports Complex_Main "HOL-Library.Multiset" "HOL-Library.List_Lexorder" "HOL-Library.Char_ord"
begin

section \<open>Python values\<close>

text \<open>
  The exceptions the modelled code can raise implicitly: a missing dictionary key, a
  division by zero, and the use of an unhashable value (a list or a dict) as a key.
\<close>

datatype py_error = KeyError | ZeroDivisionError | TypeError

text \<open>
  What \<^verbatim>\<open>json.loads\<close> returns: \<^verbatim>\<open>None\<close>, a bool, a number, a \<^verbatim>\<open>str\<close>,
  a list or a dict with string keys. Numbers are exact reals (Python's \<^verbatim>\<open>1\<close> and
  \<^verbatim>\<open>1.0\<close> are the same value here, as they are the same dictionary key in Python);
  rounding and the non-finite floats are outside the model. A dict is kept as its items in
  insertion order.
\<close>

datatype pyval =
    PNone
  | PBool bool
  | PNum real
  | PStr string
  | PList "pyval list"
  | PDict "(string \<times> pyval) list"

text \<open>
  \<^verbatim>\<open>member.get(k)\<close> on a parsed object: the value of the key, \<^verbatim>\<open>None\<close> when the key is
  absent. A key that occurs twice in the JSON text keeps its last value.
\<close>

definition py_get :: "(string \<times> pyval) list \<Rightarrow> string \<Rightarrow> pyval" where
  "py_get items k = (case map_of (rev items) k of None \<Rightarrow> PNone | Some v \<Rightarrow> v)"

text \<open>
  The key under which a \<^verbatim>\<open>dict\<close> files a value: lists and dicts are unhashable
  (\<^verbatim>\<open>TypeError\<close>), and \<^verbatim>\<open>True\<close>/\<^verbatim>\<open>False\<close> are the same keys as \<^verbatim>\<open>1\<close>/\<^verbatim>\<open>0\<close>.
\<close>

fun hkey :: "pyval \<Rightarrow> pyval option" where
  "hkey (PList xs) = None"
| "hkey (PDict items) = None"
| "hkey (PBool b) = Some (PNum (if b then 1 else 0))"
| "hkey PNone = Some PNone"
| "hkey (PNum x) = Some (PNum x)"
| "hkey (PStr s) = Some (PStr s)"

text \<open>
  A cell of a numeric column is a number or NaN; a cell of a text column is a string or
  missing. \<^verbatim>\<open>pd.isna\<close> is true of \<open>NaN\<close> and \<open>Missing\<close> only.
\<close>

datatype num_cell = NaN | Num real

datatype text_cell = Missing | Text string


section \<open>Feature engineering: \<^verbatim>\<open>scripts/03_feature_engineering.py\<close>\<close>

subsection \<open>Season of a release month\<close>

text \<open>\<^verbatim>\<open>int(month)\<close> truncates a float towards zero.\<close>

definition py_int :: "real \<Rightarrow> int" where
  "py_int x = (if 0 \<le> x then \<lfloor>x\<rfloor> else \<lceil>x\<rceil>)"

fun get_season :: "num_cell \<Rightarrow> string" where
  "get_season NaN = ''Unknown''"
| "get_season (Num m) =
     (let month = py_int m in
      if month \<in> set [5, 6, 7] then ''Summer_Blockbuster''
      else if month \<in> set [11, 12] then ''Holiday_Season''
      else if month \<in> set [1, 2, 8, 9] then ''Dump_Months''
      else ''Spring_Fall'')"

subsection \<open>Parsing genres, crew and cast\<close>

text \<open>
  \<^verbatim>\<open>json.loads\<close> is library code: the functions take it as the parameter \<open>loads\<close>, which
  returns \<open>None\<close> where the library raises. Every function below wraps its body in a bare
  \<^verbatim>\<open>except\<close>, so each exception of the body is the fallback value of the function.
\<close>

text \<open>\<^verbatim>\<open>g['name']\<close>: a \<^verbatim>\<open>KeyError\<close> or \<^verbatim>\<open>TypeError\<close> is \<open>None\<close>.\<close>

fun genre_name :: "pyval \<Rightarrow> pyval option" where
  "genre_name (PDict g) = map_of (rev g) ''name''"
| "genre_name g = None"

text \<open>The comprehension \<^verbatim>\<open>[g['name'] for g in genres]\<close> over a list.\<close>

fun genre_names :: "pyval list \<Rightarrow> pyval list option" where
  "genre_names [] = Some []"
| "genre_names (g # genres) =
     (case genre_name g of
        None \<Rightarrow> None
      | Some n \<Rightarrow> (case genre_names genres of None \<Rightarrow> None | Some ns \<Rightarrow> Some (n # ns)))"

text \<open>
  Iterating a parsed value that is not a list either raises (a number, a bool, \<^verbatim>\<open>None\<close>),
  or yields strings, on which \<^verbatim>\<open>g['name']\<close> raises, or yields nothing (an empty string or
  dict): the result is \<^verbatim>\<open>[]\<close> in each case.
\<close>

definition get_genre_names :: "(string \<Rightarrow> pyval option) \<Rightarrow> text_cell \<Rightarrow> pyval list" where
  "get_genre_names loads genre_str =
     (case genre_str of
        Missing \<Rightarrow> []
      | Text s \<Rightarrow>
          (case loads s of
             None \<Rightarrow> []
           | Some (PList genres) \<Rightarrow> (case genre_names genres of None \<Rightarrow> [] | Some ns \<Rightarrow> ns)
           | Some other \<Rightarrow> []))"

text \<open>
  The loop of \<^verbatim>\<open>get_director\<close> over the crew list. A member that is not a dict has no
  \<^verbatim>\<open>get\<close>: the \<^verbatim>\<open>AttributeError\<close> ends the function with \<^verbatim>\<open>"Unknown"\<close>.
\<close>

fun find_director :: "pyval list \<Rightarrow> pyval" where
  "find_director [] = PStr ''Unknown''"
| "find_director (PDict member # crew) =
     (if py_get member ''job'' = PStr ''Director'' then py_get member ''name''
      else find_director crew)"
| "find_director (member # crew) = PStr ''Unknown''"

definition get_director :: "(string \<Rightarrow> pyval option) \<Rightarrow> text_cell \<Rightarrow> pyval" where
  "get_director loads crew_str =
     (case crew_str of
        Missing \<Rightarrow> PStr ''Unknown''
      | Text s \<Rightarrow>
          (case loads s of
             None \<Rightarrow> PStr ''Unknown''
           | Some (PList crew) \<Rightarrow> find_director crew
           | Some other \<Rightarrow> PStr ''Unknown''))"

text \<open>
  \<^verbatim>\<open>get_top_actor\<close>: \<^verbatim>\<open>len(cast) > 0\<close> and \<^verbatim>\<open>cast[0].get('name')\<close>. On a non-empty dict
  \<^verbatim>\<open>cast[0]\<close> is a \<^verbatim>\<open>KeyError\<close> (the keys are strings), on a non-empty string its first
  character has no \<^verbatim>\<open>get\<close>, and the other values have no \<^verbatim>\<open>len\<close>.
\<close>

definition get_top_actor :: "(string \<Rightarrow> pyval option) \<Rightarrow> text_cell \<Rightarrow> pyval" where
  "get_top_actor loads cast_str =
     (case cast_str of
        Missing \<Rightarrow> PStr ''Unknown''
      | Text s \<Rightarrow>
          (case loads s of
             None \<Rightarrow> PStr ''Unknown''
           | Some (PList []) \<Rightarrow> PStr ''Unknown''
           | Some (PList (PDict member # cast)) \<Rightarrow> py_get member ''name''
           | Some other \<Rightarrow> PStr ''Unknown''))"

subsection \<open>Rolling historical averages\<close>

text \<open>
  The columns of a row that the loop of \<^verbatim>\<open>main\<close> reads. \<open>release_date\<close> is the text
  read from the CSV, ordered as strings are.
\<close>

record movie_row =
  release_date :: string
  director :: pyval
  top_actor :: pyval
  revenue_adj :: real

text \<open>
  The four dictionaries and the two score lists that the loop updates. Revenues, their
  running sums and the quotients are exact reals here; the code computes them in doubles,
  and the rounding of its additions and divisions is outside the model.
\<close>

record pass_state =
  director_rev :: "pyval \<rightharpoonup> real"
  director_count :: "pyval \<rightharpoonup> int"
  actor_rev :: "pyval \<rightharpoonup> real"
  actor_count :: "pyval \<rightharpoonup> int"
  dir_scores :: "real list"
  actor_scores :: "real list"

definition init_state :: pass_state where
  "init_state =
     \<lparr>director_rev = Map.empty, director_count = Map.empty,
      actor_rev = Map.empty, actor_count = Map.empty,
      dir_scores = [], actor_scores = []\<rparr>"

text \<open>
  The loop body runs the same block twice, once on the director's dictionaries and once on
  the actor's. \<open>score_block\<close> is that block on one pair of dictionaries and its score list.
  \<^verbatim>\<open>d in director_rev\<close> hashes \<open>d\<close>; \<^verbatim>\<open>director_rev[d]\<close> and \<^verbatim>\<open>director_count[d]\<close> raise
  \<^verbatim>\<open>KeyError\<close> on a missing key; the division raises on a zero count.
\<close>

type_synonym ledger = "(pyval \<rightharpoonup> real) \<times> (pyval \<rightharpoonup> int) \<times> real list"

definition score_block :: "pyval \<Rightarrow> real \<Rightarrow> ledger \<Rightarrow> py_error + ledger" where
  "score_block d revenue l =
     (case l of (e_rev, e_count, scores) \<Rightarrow>
        if d \<noteq> PStr ''Unknown'' then
          (case hkey d of
             None \<Rightarrow> Inl TypeError
           | Some k \<Rightarrow>
               (case e_rev k of
                  Some summed \<Rightarrow>
                    (case e_count k of
                       None \<Rightarrow> Inl KeyError
                     | Some n \<Rightarrow>
                         if n = 0 then Inl ZeroDivisionError
                         else Inr (e_rev(k \<mapsto> summed + revenue), e_count(k \<mapsto> n + 1),
                                   scores @ [summed / real_of_int n]))
                | None \<Rightarrow> Inr (e_rev(k \<mapsto> revenue), e_count(k \<mapsto> 1), scores @ [0])))
        else Inr (e_rev, e_count, scores @ [0]))"

definition loop_body :: "pass_state \<Rightarrow> movie_row \<Rightarrow> py_error + pass_state" where
  "loop_body st row =
     (let d = director row; a = top_actor row; revenue = revenue_adj row in
      case score_block d revenue (director_rev st, director_count st, dir_scores st) of
        Inl e \<Rightarrow> Inl e
      | Inr (d_rev, d_count, d_scores) \<Rightarrow>
          (case score_block a revenue (actor_rev st, actor_count st, actor_scores st) of
             Inl e \<Rightarrow> Inl e
           | Inr (a_rev, a_count, a_scores) \<Rightarrow>
               Inr \<lparr>director_rev = d_rev, director_count = d_count,
                    actor_rev = a_rev, actor_count = a_count,
                    dir_scores = d_scores, actor_scores = a_scores\<rparr>))"

text \<open>\<^verbatim>\<open>for idx, row in df.iterrows()\<close>: the rows in frame order; an exception ends the pass.\<close>

fun run_rows :: "pass_state \<Rightarrow> movie_row list \<Rightarrow> py_error + pass_state" where
  "run_rows st [] = Inr st"
| "run_rows st (row # rows) =
     (case loop_body st row of Inl e \<Rightarrow> Inl e | Inr st' \<Rightarrow> run_rows st' rows)"

definition score_loop :: "movie_row list \<Rightarrow> py_error + pass_state" where
  "score_loop rows = run_rows init_state rows"

text \<open>
  After the loop both score lists are divided by a million and become the columns
  \<^verbatim>\<open>director_score\<close> and \<^verbatim>\<open>actor_score\<close> of the frame.
\<close>

definition scaled_scores :: "movie_row list \<Rightarrow> py_error + (real list \<times> real list)" where
  "scaled_scores rows =
     (case score_loop rows of
        Inl e \<Rightarrow> Inl e
      | Inr st \<Rightarrow>
          Inr (map (\<lambda>s. s / 1000000) (dir_scores st), map (\<lambda>s. s / 1000000) (actor_scores st)))"

text \<open>
  Step 4 of \<^verbatim>\<open>main\<close>: sort the frame by release date, then the loop and the scaling.
  \<^verbatim>\<open>DataFrame.sort_values\<close> is library code, called with its default \<^verbatim>\<open>kind\<close>; it is
  the parameter \<open>sort_values\<close> here.
\<close>

definition star_power ::
  "(movie_row list \<Rightarrow> movie_row list) \<Rightarrow> movie_row list \<Rightarrow> py_error + (real list \<times> real list)" where
  "star_power sort_values df = scaled_scores (sort_values df)"

text \<open>
  What the library documents of the sort whatever its \<^verbatim>\<open>kind\<close>: the result holds the
  same rows, in ascending order of the key.
\<close>

definition sorts_by_date :: "(movie_row list \<Rightarrow> movie_row list) \<Rightarrow> bool" where
  "sorts_by_date sort_values \<longleftrightarrow>
     (\<forall>df. sorted (map release_date (sort_values df)) \<and> mset (sort_values df) = mset df)"


section \<open>Inference: \<^verbatim>\<open>app.py\<close>\<close>

text \<open>
  A Python dict keeps its keys in insertion order: assigning to a key that is present
  replaces its value in place, assigning to a new key appends it.
\<close>

fun dict_set :: "(string \<times> 'v) list \<Rightarrow> string \<Rightarrow> 'v \<Rightarrow> (string \<times> 'v) list" where
  "dict_set [] k v = [(k, v)]"
| "dict_set ((k', v') # d) k v =
     (if k' = k then (k, v) # d else (k', v') # dict_set d k v)"

definition dict_has :: "(string \<times> 'v) list \<Rightarrow> string \<Rightarrow> bool" where
  "dict_has d k \<longleftrightarrow> k \<in> set (map fst d)"

text \<open>The values of the form's widgets.\<close>

record live_input =
  budget :: real
  runtime :: real
  season :: string
  is_franchise :: bool
  director_score :: real
  actor_score :: real
  primary_genre :: string

text \<open>
  The body of the button handler up to \<^verbatim>\<open>pd.DataFrame([input_data])\<close>: the one-row frame
  has the dict's keys as its columns, in the dict's order, and the dict's values as its row.
\<close>

definition build :: "string list \<Rightarrow> live_input \<Rightarrow> (string \<times> real) list" where
  "build feature_cols inp =
     (let input_data = foldl (\<lambda>d col. dict_set d col 0) [] feature_cols;
          input_data = dict_set input_data ''budget_adj'' (budget inp * 1000000);
          input_data = dict_set input_data ''runtime'' (runtime inp);
          input_data = dict_set input_data ''is_franchise'' (if is_franchise inp then 1 else 0);
          input_data = dict_set input_data ''director_score'' (director_score inp);
          input_data = dict_set input_data ''actor_score'' (actor_score inp);
          season_col = ''season_'' @ season inp;
          input_data = (if dict_has input_data season_col
                        then dict_set input_data season_col 1 else input_data);
          genre_col = ''genre_'' @ primary_genre inp;
          input_data = (if dict_has input_data genre_col
                        then dict_set input_data genre_col 1 else input_data)
      in input_data)"


section \<open>Notions used to state the properties\<close>

text \<open>The names that the handler assigns without looking at the schema.\<close>

definition numeric_fields :: "string list" where
  "numeric_fields = [''budget_adj'', ''runtime'', ''is_franchise'', ''director_score'', ''actor_score'']"

text \<open>
  The value that the handler leaves under a name: the supplied value under a numeric name,
  1 under the two names it builds from the season and genre labels, 0 elsewhere.
\<close>

definition expected_entry :: "live_input \<Rightarrow> string \<Rightarrow> real" where
  "expected_entry inp n =
     (if n = ''budget_adj'' then budget inp * 1000000
      else if n = ''runtime'' then runtime inp
      else if n = ''is_franchise'' then (if is_franchise inp then 1 else 0)
      else if n = ''director_score'' then director_score inp
      else if n = ''actor_score'' then actor_score inp
      else if n = ''season_'' @ season inp then 1
      else if n = ''genre_'' @ primary_genre inp then 1
      else 0)"

text \<open>The schema and the form values of the inference scenario.\<close>

definition scenario_schema :: "string list" where
  "scenario_schema =
     [''budget_adj'', ''runtime'', ''is_franchise'', ''director_score'', ''actor_score'',
      ''season_Holiday_Season'', ''genre_Action'']"

definition scenario_input :: live_input where
  "scenario_input =
     \<lparr>budget = 50, runtime = 110, season = ''Holiday Season'', is_franchise = True,
      director_score = 12.5, actor_score = 40, primary_genre = ''Action''\<rparr>"

text \<open>The order in which a dict holds keys assigned one after the other.\<close>

definition insert_key :: "string list \<Rightarrow> string \<Rightarrow> string list" where
  "insert_key ks k = (if k \<in> set ks then ks else ks @ [k])"

definition key_order :: "string list \<Rightarrow> string list" where
  "key_order names = foldl insert_key [] names"

text \<open>
  The rows among \<open>pre\<close> that feature the entity filed under key \<open>k\<close>, where \<open>ent\<close> is
  \<open>director\<close> or \<open>top_actor\<close>. Rows of the sentinel \<^verbatim>\<open>"Unknown"\<close> feature no entity.
\<close>

definition prior :: "(movie_row \<Rightarrow> pyval) \<Rightarrow> movie_row list \<Rightarrow> pyval \<Rightarrow> movie_row list" where
  "prior ent pre k = filter (\<lambda>m. ent m \<noteq> PStr ''Unknown'' \<and> hkey (ent m) = Some k) pre"

text \<open>The mean revenue of the rows before \<open>m\<close> that feature \<open>m\<close>'s entity, 0 when there is none.\<close>

definition mean_before :: "(movie_row \<Rightarrow> pyval) \<Rightarrow> movie_row list \<Rightarrow> movie_row \<Rightarrow> real" where
  "mean_before ent pre m =
     (case hkey (ent m) of
        None \<Rightarrow> 0
      | Some k \<Rightarrow>
          (if prior ent pre k = [] then 0
           else sum_list (map revenue_adj (prior ent pre k)) / real (length (prior ent pre k))))"

definition means_before :: "(movie_row \<Rightarrow> pyval) \<Rightarrow> movie_row list \<Rightarrow> real list" where
  "means_before ent rows = map (\<lambda>i. mean_before ent (take i rows) (rows ! i)) [0..<length rows]"

text \<open>
  A pair of dictionaries and a score list agree with the rows \<open>pre\<close> processed so far: a key
  is present exactly when a row featured it, with the sum of those rows' revenues and their
  number.
\<close>

definition ledger_ok :: "(movie_row \<Rightarrow> pyval) \<Rightarrow> movie_row list \<Rightarrow> ledger \<Rightarrow> bool" where
  "ledger_ok ent pre l \<longleftrightarrow>
     (case l of (e_rev, e_count, scores) \<Rightarrow>
        (\<forall>k. e_rev k = (if prior ent pre k = [] then None
                        else Some (sum_list (map revenue_adj (prior ent pre k))))) \<and>
        (\<forall>k. e_count k = (if prior ent pre k = [] then None
                          else Some (int (length (prior ent pre k))))) \<and>
        scores = means_before ent pre)"

definition hashable :: "pyval \<Rightarrow> bool" where
  "hashable v \<longleftrightarrow> hkey v \<noteq> None"

text \<open>Rows whose director and lead actor can be dictionary keys: on the others the loop raises.\<close>

definition all_hashable :: "movie_row list \<Rightarrow> bool" where
  "all_hashable rows = list_all (\<lambda>m. hashable (director m) \<and> hashable (top_actor m)) rows"

text \<open>The state of the loop after the rows \<open>pre\<close>.\<close>

definition state_ok :: "movie_row list \<Rightarrow> pass_state \<Rightarrow> bool" where
  "state_ok pre st \<longleftrightarrow>
     ledger_ok director pre (director_rev st, director_count st, dir_scores st) \<and>
     ledger_ok top_actor pre (actor_rev st, actor_count st, actor_scores st)"

text \<open>
  A stand-in for \<^verbatim>\<open>json.loads\<close> on three cell texts: \<open>''nameless''\<close> stands for the text
  \<^verbatim>\<open>[{"job": "Director"}]\<close>, \<open>''named''\<close> for
  \<^verbatim>\<open>[{"job": "Writer", "name": "Al"}, {"job": "Director", "name": "Bo"}]\<close>, and every
  other text does not parse.
\<close>

definition sample_loads :: "string \<Rightarrow> pyval option" where
  "sample_loads s =
     (if s = ''nameless'' then Some (PList [PDict [(''job'', PStr ''Director'')]])
      else if s = ''named'' then
        Some (PList [PDict [(''job'', PStr ''Writer''), (''name'', PStr ''Al'')],
                     PDict [(''job'', PStr ''Director''), (''name'', PStr ''Bo'')]])
      else None)"


text \<open>A row whose director and lead actor are the given names.\<close>

definition movie :: "string \<Rightarrow> string \<Rightarrow> string \<Rightarrow> real \<Rightarrow> movie_row" where
  "movie date d a revenue =
     \<lparr>release_date = date, director = PStr d, top_actor = PStr a, revenue_adj = revenue\<rparr>"

definition is_str :: "pyval \<Rightarrow> bool" where
  "is_str v \<longleftrightarrow> (case v of PStr s \<Rightarrow> True | other \<Rightarrow> False)"

text \<open>A crew member that the loop of \<open>find_director\<close> passes over.\<close>

definition not_director :: "pyval \<Rightarrow> bool" where
  "not_director m \<longleftrightarrow>
     (case m of PDict kv \<Rightarrow> py_get kv ''job'' \<noteq> PStr ''Director'' | other \<Rightarrow> False)"

text \<open>Every object of a parsed list carries a string under \<^verbatim>\<open>name\<close>.\<close>

definition names_are_strings :: "pyval list \<Rightarrow> bool" where
  "names_are_strings members =
     list_all (\<lambda>m. case m of PDict kv \<Rightarrow> is_str (py_get kv ''name'') | other \<Rightarrow> True) members"


section \<open>Properties of the inference vector\<close>

subsection \<open>Dictionaries in insertion order\<close>

lemma keys_dict_set: "map fst (dict_set d k v) = insert_key (map fst d) k"
  by (induction d) (force simp: insert_key_def)+

lemma map_of_dict_set: "map_of (dict_set d k v) = (map_of d)(k \<mapsto> v)"
  by (induction d) (auto simp: fun_eq_iff)

lemma set_insert_key: "set (insert_key ks k) = insert k (set ks)"
  by (auto simp: insert_key_def)

lemma distinct_insert_key: "distinct ks \<Longrightarrow> distinct (insert_key ks k)"
  by (simp add: insert_key_def)

lemma insert_key_present: "k \<in> set ks \<Longrightarrow> insert_key ks k = ks"
  by (simp add: insert_key_def)

lemma keys_zeros: "map fst (foldl (\<lambda>d col. dict_set d col v) d cols) = foldl insert_key (map fst d) cols"
  by (induction cols arbitrary: d) (simp_all add: keys_dict_set)

lemma map_of_zeros:
  "map_of (foldl (\<lambda>d col. dict_set d col v) d cols) n =
     (if n \<in> set cols then Some v else map_of d n)"
  by (induction cols arbitrary: d) (auto simp: map_of_dict_set)

lemma foldl_insert_key_present: "set xs \<subseteq> set ks \<Longrightarrow> foldl insert_key ks xs = ks"
  by (induction xs arbitrary: ks) (simp_all add: insert_key_present)

lemma foldl_insert_key_distinct: "distinct (ks @ xs) \<Longrightarrow> foldl insert_key ks xs = ks @ xs"
  by (induction xs arbitrary: ks) (simp_all add: insert_key_def)

lemma set_foldl_insert_key: "set (foldl insert_key ks xs) = set ks \<union> set xs"
  by (induction xs arbitrary: ks) (auto simp: set_insert_key)

lemma distinct_foldl_insert_key: "distinct ks \<Longrightarrow> distinct (foldl insert_key ks xs)"
  by (induction xs arbitrary: ks) (simp_all add: distinct_insert_key)

lemma key_order_distinct: "distinct names \<Longrightarrow> key_order names = names"
  using foldl_insert_key_distinct [of "[]" names] by (simp add: key_order_def)

lemma set_key_order: "set (key_order names) = set names"
  by (simp add: key_order_def set_foldl_insert_key)

lemma distinct_key_order: "distinct (key_order names)"
  by (simp add: key_order_def distinct_foldl_insert_key)

lemma build_keys: "map fst (build schema inp) = key_order (schema @ numeric_fields)"
  by (simp add: build_def Let_def keys_dict_set keys_zeros dict_has_def insert_key_present
      key_order_def numeric_fields_def del: set_map)


lemma set_keys_dict_set: "fst ` set (dict_set d k v) = insert k (fst ` set d)"
  using keys_dict_set [of d k v] set_insert_key [of "map fst d" k]
  by (metis set_map)

lemma set_keys_zeros: "fst ` set (foldl (\<lambda>d col. dict_set d col v) d cols) = fst ` set d \<union> set cols"
  using keys_zeros [of v d cols] set_foldl_insert_key [of "map fst d" cols]
  by (metis set_map)

lemma build_lookup:
  "map_of (build schema inp) n =
     (if n \<in> set schema \<union> set numeric_fields then Some (expected_entry inp n) else None)"
  by (auto simp: build_def Let_def dict_has_def map_of_dict_set set_keys_dict_set
      set_keys_zeros map_of_zeros expected_entry_def numeric_fields_def)

lemma dict_by_keys:
  assumes "distinct (map fst d)"
  shows "d = map (\<lambda>n. (n, the (map_of d n))) (map fst d)"
proof -
  have "map (\<lambda>p. (fst p, the (map_of d (fst p)))) d = d"
  proof (rule map_idI)
    fix p assume "p \<in> set d"
    then have "(fst p, snd p) \<in> set d" by simp
    with assms have "map_of d (fst p) = Some (snd p)"
      by (simp only: map_of_eq_Some_iff)
    then show "(fst p, the (map_of d (fst p))) = p" by simp
  qed
  then show ?thesis by (simp add: comp_def)
qed

lemma build_closed_form:
  "build schema inp = map (\<lambda>n. (n, expected_entry inp n)) (key_order (schema @ numeric_fields))"
proof -
  let ?d = "build schema inp"
  have keys: "map fst ?d = key_order (schema @ numeric_fields)"
    by (rule build_keys)
  then have "distinct (map fst ?d)"
    by (simp add: distinct_key_order)
  then have "?d = map (\<lambda>n. (n, the (map_of ?d n))) (map fst ?d)"
    by (rule dict_by_keys)
  also have "\<dots> = map (\<lambda>n. (n, expected_entry inp n)) (map fst ?d)"
    unfolding keys by (rule map_cong) (simp_all add: build_lookup set_key_order)
  finally show ?thesis
    unfolding keys .
qed

lemma key_order_schema:
  "distinct schema \<Longrightarrow> set numeric_fields \<subseteq> set schema \<Longrightarrow> key_order (schema @ numeric_fields) = schema"
  using key_order_distinct [of schema]
  by (simp add: key_order_def foldl_insert_key_present)


subsection \<open>The concrete inference scenario\<close>

text \<open>
  Claim C1. With the scenario's schema and form values (season ``Holiday Season'', genre
  ``Action'', franchise ticked, budget 50, runtime 110, director score 12.5, actor score 40)
  the handler builds the column name \<^verbatim>\<open>season_Holiday Season\<close>, with a space, from the
  form's label. The schema holds \<^verbatim>\<open>season_Holiday_Season\<close>, with the underscore that
  \<open>get_season\<close> writes, so the membership test fails and the season slot stays 0: the row
  is 50000000, 110, 1, 12.5, 40, 0, 1 and not 50000000, 110, 1, 12.5, 40, 1, 1. The label
  ``Spring Fall'' gives the same row, also with 0 in the season slot.
\<close>

theorem scenario_season_slot_stays_zero: "build scenario_schema scenario_input =
   [(''budget_adj'', 50000000), (''runtime'', 110), (''is_franchise'', 1), (''director_score'', 12.5),
    (''actor_score'', 40), (''season_Holiday_Season'', 0), (''genre_Action'', 1)]
  \<and> build scenario_schema (scenario_input\<lparr>season := ''Spring Fall''\<rparr>) =
   [(''budget_adj'', 50000000), (''runtime'', 110), (''is_franchise'', 1), (''director_score'', 12.5),
    (''actor_score'', 40), (''season_Holiday_Season'', 0), (''genre_Action'', 1)]"
  by (simp add: build_def dict_has_def scenario_input_def scenario_schema_def)


subsection \<open>Alignment with the schema\<close>

text \<open>
  Claim C4, as the code has it. The handler assigns the five numeric names whether or not
  the schema lists them. For every schema and every form input, the row has one entry per
  key of the dict in insertion order: the schema's names in order of first occurrence,
  then the numeric names that the schema lacks; the entry under a name is the supplied
  value for a numeric name, 1 for the two names built from the season and genre labels, and
  0 otherwise. When the schema's names are distinct and include the five numeric names, the
  keys are the schema itself: entry \<open>i\<close> is named \<open>schema ! i\<close> and the length is that of
  the schema.
\<close>

theorem build_follows_key_order: "build schema inp = map (\<lambda>n. (n, expected_entry inp n)) (key_order (schema @ numeric_fields))
   \<and> (distinct schema \<and> set numeric_fields \<subseteq> set schema \<longrightarrow>
        build schema inp = map (\<lambda>n. (n, expected_entry inp n)) schema)"
  using build_closed_form [of schema inp] by (simp add: key_order_schema)


theorem build_follows_key_order_witness: "distinct scenario_schema \<and> set numeric_fields \<subseteq> set scenario_schema
   \<and> map fst (build scenario_schema scenario_input) = scenario_schema"
proof -
  have h: "distinct scenario_schema \<and> set numeric_fields \<subseteq> set scenario_schema"
    by (simp add: scenario_schema_def numeric_fields_def)
  with build_follows_key_order [of scenario_schema scenario_input]
  have "build scenario_schema scenario_input =
      map (\<lambda>n. (n, expected_entry scenario_input n)) scenario_schema"
    by blast
  then have "map fst (build scenario_schema scenario_input) = scenario_schema"
    by (simp add: comp_def)
  with h show ?thesis by simp
qed


text \<open>
  The claim as written fails: on the one-name schema \<^verbatim>\<open>["runtime"]\<close> the row has five
  entries, four of them under names that the schema does not have.
\<close>

theorem build_adds_numeric_names: "map fst (build [''runtime''] scenario_input) =
   [''runtime'', ''budget_adj'', ''is_franchise'', ''director_score'', ''actor_score'']"
  by (simp add: build_def dict_has_def scenario_input_def)


subsection \<open>Labels that the schema does not have\<close>

text \<open>
  Claim C7, as the code has it. For every schema and every form input: when the name built
  from the season label is not in the schema, every entry of the row whose name starts with
  \<^verbatim>\<open>season_\<close> is 0; when the name built from the genre label is not in the schema, every
  entry whose name starts with \<^verbatim>\<open>genre_\<close> is 0; and the row has the schema's length when
  the schema's names are distinct and include the five numeric names. \<open>build\<close> has no
  raising branch: it returns a row for every schema and input.
\<close>

theorem unlisted_label_sets_no_indicator:
  "(''season_'' @ season inp \<notin> set schema \<longrightarrow>
      (\<forall>(n, v) \<in> set (build schema inp). take 7 n = ''season_'' \<longrightarrow> v = 0)) \<and>
   (''genre_'' @ primary_genre inp \<notin> set schema \<longrightarrow>
      (\<forall>(n, v) \<in> set (build schema inp). take 6 n = ''genre_'' \<longrightarrow> v = 0)) \<and>
   (distinct schema \<and> set numeric_fields \<subseteq> set schema \<longrightarrow>
      length (build schema inp) = length schema)"
proof -
  have keys: "set (key_order (schema @ numeric_fields)) = set schema \<union> set numeric_fields"
    by (simp add: set_key_order)
  have s: "v = 0" if "''season_'' @ season inp \<notin> set schema" "(n, v) \<in> set (build schema inp)"
    "take 7 n = ''season_''" for n v
  proof -
    from that(2) have n: "n \<in> set schema \<union> set numeric_fields" and v: "v = expected_entry inp n"
      unfolding build_closed_form using keys by auto
    from that(3) have "n \<notin> set numeric_fields \<and> n \<noteq> ''genre_'' @ primary_genre inp"
      by (auto simp: numeric_fields_def)
    with n that(1) v show ?thesis
      by (auto simp: expected_entry_def numeric_fields_def)
  qed
  have g: "v = 0" if "''genre_'' @ primary_genre inp \<notin> set schema" "(n, v) \<in> set (build schema inp)"
    "take 6 n = ''genre_''" for n v
  proof -
    from that(2) have n: "n \<in> set schema \<union> set numeric_fields" and v: "v = expected_entry inp n"
      unfolding build_closed_form using keys by auto
    from that(3) have "n \<notin> set numeric_fields \<and> n \<noteq> ''season_'' @ season inp"
      by (auto simp: numeric_fields_def)
    with n that(1) v show ?thesis
      by (auto simp: expected_entry_def numeric_fields_def)
  qed
  have l: "length (build schema inp) = length schema"
    if "distinct schema \<and> set numeric_fields \<subseteq> set schema"
    using that by (simp add: build_closed_form key_order_schema)
  from s g l show ?thesis by blast
qed


theorem unlisted_label_sets_no_indicator_witness:
  "''season_'' @ season (scenario_input\<lparr>season := ''Spring Fall'', primary_genre := ''Horror''\<rparr>)
      \<notin> set scenario_schema \<and>
   ''genre_'' @ primary_genre (scenario_input\<lparr>season := ''Spring Fall'', primary_genre := ''Horror''\<rparr>)
      \<notin> set scenario_schema \<and>
   distinct scenario_schema \<and> set numeric_fields \<subseteq> set scenario_schema \<and>
   list_all (\<lambda>(n, v). take 7 n = ''season_'' \<longrightarrow> v = 0)
     (build scenario_schema
        (scenario_input\<lparr>season := ''Spring Fall'', primary_genre := ''Horror''\<rparr>)) \<and>
   list_all (\<lambda>(n, v). take 6 n = ''genre_'' \<longrightarrow> v = 0)
     (build scenario_schema
        (scenario_input\<lparr>season := ''Spring Fall'', primary_genre := ''Horror''\<rparr>)) \<and>
   length (build scenario_schema
        (scenario_input\<lparr>season := ''Spring Fall'', primary_genre := ''Horror''\<rparr>)) =
     length scenario_schema"
proof -
  let ?inp = "scenario_input\<lparr>season := ''Spring Fall'', primary_genre := ''Horror''\<rparr>"
  have s: "''season_'' @ season ?inp \<notin> set scenario_schema"
    by (simp add: scenario_schema_def scenario_input_def)
  have g: "''genre_'' @ primary_genre ?inp \<notin> set scenario_schema"
    by (simp add: scenario_schema_def scenario_input_def)
  have d: "distinct scenario_schema \<and> set numeric_fields \<subseteq> set scenario_schema"
    by (simp add: scenario_schema_def numeric_fields_def)
  from s g d unlisted_label_sets_no_indicator [of ?inp scenario_schema]
  show ?thesis unfolding list_all_iff by blast
qed

text \<open>
  The claim as written fails in its length: on the schema \<^verbatim>\<open>["genre_Action"]\<close>, which
  lacks the label ``Spring Fall'', the row has six entries.
\<close>

theorem unlisted_label_row_longer_than_schema: "''season_'' @ season (scenario_input\<lparr>season := ''Spring Fall''\<rparr>) \<notin> set [''genre_Action'']
  \<and> length (build [''genre_Action''] (scenario_input\<lparr>season := ''Spring Fall''\<rparr>)) \<noteq> length [''genre_Action'']"
  by (simp add: build_def dict_has_def scenario_input_def)


section \<open>Properties of the row-wise extractors\<close>

subsection \<open>Seasons\<close>

text \<open>
  Claim C10. For every month value that is not missing, \<open>get_season\<close> returns one of the
  four season labels; every integer outside 1 to 12 (0, 13 and -5 among them) is mapped to
  \<^verbatim>\<open>Spring_Fall\<close>; and \<^verbatim>\<open>Unknown\<close> is returned exactly when the month is missing.
\<close>

theorem get_season_labels:
  "get_season (Num x) \<in> {''Summer_Blockbuster'', ''Holiday_Season'', ''Dump_Months'', ''Spring_Fall''} \<and>
   (n < 1 \<or> 12 < n \<longrightarrow> get_season (Num (of_int n)) = ''Spring_Fall'') \<and>
   (get_season c = ''Unknown'' \<longleftrightarrow> c = NaN)"
proof -
  have a: "get_season (Num y) \<in> {''Summer_Blockbuster'', ''Holiday_Season'', ''Dump_Months'', ''Spring_Fall''}" for y
    by (simp add: Let_def)
  have b: "get_season (Num (of_int n)) = ''Spring_Fall''" if "n < 1 \<or> 12 < n"
    using that by (auto simp: py_int_def Let_def)
  have c: "get_season c = ''Unknown'' \<longleftrightarrow> c = NaN"
  proof (cases c)
    case NaN
    then show ?thesis by simp
  next
    case (Num y)
    with a [of y] show ?thesis by auto
  qed
  from a b c show ?thesis by blast
qed

theorem get_season_labels_witness:
  "(12::int) < 13 \<and> get_season (Num (of_int 13)) = ''Spring_Fall'' \<and>
   (0::int) < 1 \<and> get_season (Num (of_int 0)) = ''Spring_Fall'' \<and>
   (-5::int) < 1 \<and> get_season (Num (of_int (-5))) = ''Spring_Fall''"
  using get_season_labels [of 0 13 NaN] get_season_labels [of 0 0 NaN]
    get_season_labels [of 0 "-5" NaN]
  by simp

subsection \<open>Director, lead actor and genres\<close>

lemma find_director_cases:
  "find_director crew = PStr ''Unknown'' \<or>
   (\<exists>pre member post. crew = pre @ PDict member # post \<and> list_all not_director pre \<and>
      py_get member ''job'' = PStr ''Director'' \<and>
      find_director crew = py_get member ''name'')"
proof (induction crew rule: find_director.induct)
  case 1
  then show ?case by simp
next
  case (2 member crew)
  show ?case
  proof (cases "py_get member ''job'' = PStr ''Director''")
    case True
    then have "PDict member # crew = [] @ PDict member # crew \<and> list_all not_director [] \<and>
      py_get member ''job'' = PStr ''Director'' \<and>
      find_director (PDict member # crew) = py_get member ''name''"
      by simp
    then show ?thesis by blast
  next
    case False
    with 2 consider "find_director crew = PStr ''Unknown''"
      | pre m post where "crew = pre @ PDict m # post" "list_all not_director pre"
          "py_get m ''job'' = PStr ''Director''" "find_director crew = py_get m ''name''"
      by blast
    then show ?thesis
    proof cases
      case 1
      with False show ?thesis by simp
    next
      case 2
      with False have "PDict member # crew = (PDict member # pre) @ PDict m # post \<and>
        list_all not_director (PDict member # pre) \<and>
        py_get m ''job'' = PStr ''Director'' \<and>
        find_director (PDict member # crew) = py_get m ''name''"
        by (simp add: not_director_def)
      then show ?thesis by blast
    qed
  qed
qed simp_all

lemma find_director_is_str: "names_are_strings crew \<Longrightarrow> is_str (find_director crew)"
  by (induction crew rule: find_director.induct) (simp_all add: is_str_def names_are_strings_def)

lemma get_director_cases:
  "get_director loads c = PStr ''Unknown'' \<or>
     (\<exists>s pre member post. c = Text s \<and> loads s = Some (PList (pre @ PDict member # post)) \<and>
        list_all not_director pre \<and> py_get member ''job'' = PStr ''Director'' \<and>
        get_director loads c = py_get member ''name'')"
proof (cases c)
  case Missing
  then show ?thesis by (simp add: get_director_def)
next
  case (Text s)
  show ?thesis
  proof (cases "loads s")
    case None
    with Text show ?thesis by (simp add: get_director_def)
  next
    case (Some v)
    show ?thesis
    proof (cases v)
      case (PList crew)
      with Text Some have "get_director loads c = find_director crew"
        by (simp add: get_director_def)
      with find_director_cases [of crew] Text Some PList show ?thesis
        by auto
    qed (use Text Some in \<open>simp_all add: get_director_def\<close>)
  qed
qed

lemma get_top_actor_cases:
  "get_top_actor loads c = PStr ''Unknown'' \<or>
     (\<exists>s member rest. c = Text s \<and> loads s = Some (PList (PDict member # rest)) \<and>
        get_top_actor loads c = py_get member ''name'')"
  by (auto simp: get_top_actor_def split: text_cell.splits option.splits pyval.splits list.splits)

lemma get_director_is_str:
  assumes "\<And>s crew. c = Text s \<Longrightarrow> loads s = Some (PList crew) \<Longrightarrow> names_are_strings crew"
  shows "is_str (get_director loads c)"
  using assms
  by (auto simp: get_director_def is_str_def [of "PStr s" for s] find_director_is_str
      split: text_cell.splits option.splits pyval.splits)

lemma get_top_actor_is_str:
  assumes "\<And>s crew. c = Text s \<Longrightarrow> loads s = Some (PList crew) \<Longrightarrow> names_are_strings crew"
  shows "is_str (get_top_actor loads c)"
proof (cases "\<exists>s member rest. c = Text s \<and> loads s = Some (PList (PDict member # rest))")
  case True
  then obtain s member rest where c: "c = Text s" "loads s = Some (PList (PDict member # rest))"
    by blast
  with assms have "names_are_strings (PDict member # rest)" by blast
  then have "is_str (py_get member ''name'')" by (simp add: names_are_strings_def)
  with c show ?thesis by (simp add: get_top_actor_def)
next
  case False
  with get_top_actor_cases [of loads c] have "get_top_actor loads c = PStr ''Unknown''"
    by blast
  then show ?thesis by (simp add: is_str_def)
qed

text \<open>
  Claim C9, as the code has it. For every crew cell the derived director is either the
  sentinel \<^verbatim>\<open>"Unknown"\<close> or what the first crew member whose job is \<^verbatim>\<open>"Director"\<close>
  holds under \<^verbatim>\<open>name\<close>, read with \<^verbatim>\<open>get\<close>: a string when that member carries a string
  name, \<^verbatim>\<open>None\<close> when it has no name. Likewise the lead actor is the sentinel or what the
  first cast member holds under \<^verbatim>\<open>name\<close>. Both are strings whenever every object of the
  parsed list has a string name. A missing or unparseable crew or cast cell gives the
  sentinel, and a missing or unparseable genre cell gives the empty list.
\<close>

theorem derived_names:
  "(get_director loads c = PStr ''Unknown'' \<or>
     (\<exists>s pre member post. c = Text s \<and> loads s = Some (PList (pre @ PDict member # post)) \<and>
        list_all not_director pre \<and> py_get member ''job'' = PStr ''Director'' \<and>
        get_director loads c = py_get member ''name'')) \<and>
   (get_top_actor loads c = PStr ''Unknown'' \<or>
     (\<exists>s member rest. c = Text s \<and> loads s = Some (PList (PDict member # rest)) \<and>
        get_top_actor loads c = py_get member ''name'')) \<and>
   ((\<forall>s members. c = Text s \<and> loads s = Some (PList members) \<longrightarrow> names_are_strings members) \<longrightarrow>
      is_str (get_director loads c) \<and> is_str (get_top_actor loads c)) \<and>
   get_director loads Missing = PStr ''Unknown'' \<and>
   get_top_actor loads Missing = PStr ''Unknown'' \<and>
   get_genre_names loads Missing = [] \<and>
   (loads t = None \<longrightarrow>
      get_director loads (Text t) = PStr ''Unknown'' \<and>
      get_top_actor loads (Text t) = PStr ''Unknown'' \<and>
      get_genre_names loads (Text t) = [])"
proof -
  have "is_str (get_director loads c) \<and> is_str (get_top_actor loads c)"
    if "\<forall>s members. c = Text s \<and> loads s = Some (PList members) \<longrightarrow> names_are_strings members"
    using that get_director_is_str [of c loads] get_top_actor_is_str [of c loads] by blast
  moreover have "get_director loads Missing = PStr ''Unknown''"
    "get_top_actor loads Missing = PStr ''Unknown''" "get_genre_names loads Missing = []"
    by (simp_all add: get_director_def get_top_actor_def get_genre_names_def)
  moreover have "get_director loads (Text t) = PStr ''Unknown'' \<and>
      get_top_actor loads (Text t) = PStr ''Unknown'' \<and> get_genre_names loads (Text t) = []"
    if "loads t = None"
    using that by (simp add: get_director_def get_top_actor_def get_genre_names_def)
  ultimately show ?thesis
    using get_director_cases [of loads c] get_top_actor_cases [of loads c] by blast
qed

theorem derived_names_witness:
  "sample_loads ''garbled'' = None \<and>
   get_director sample_loads (Text ''garbled'') = PStr ''Unknown'' \<and>
   get_top_actor sample_loads (Text ''garbled'') = PStr ''Unknown'' \<and>
   get_genre_names sample_loads (Text ''garbled'') = [] \<and>
   is_str (get_director sample_loads (Text ''named'')) \<and>
   is_str (get_top_actor sample_loads (Text ''named''))"
proof -
  have n: "sample_loads ''garbled'' = None"
    by (simp add: sample_loads_def)
  have s: "\<forall>s members. Text ''named'' = Text s \<and> sample_loads s = Some (PList members) \<longrightarrow>
      names_are_strings members"
    by (simp add: sample_loads_def names_are_strings_def py_get_def is_str_def)
  from n derived_names [of sample_loads "Text ''garbled''" "''garbled''"]
  have "get_director sample_loads (Text ''garbled'') = PStr ''Unknown'' \<and>
      get_top_actor sample_loads (Text ''garbled'') = PStr ''Unknown'' \<and>
      get_genre_names sample_loads (Text ''garbled'') = []"
    by blast
  moreover from s derived_names [of sample_loads "Text ''named''" "''garbled''"]
  have "is_str (get_director sample_loads (Text ''named'')) \<and>
      is_str (get_top_actor sample_loads (Text ''named''))"
    by blast
  ultimately show ?thesis using n by blast
qed

text \<open>
  The claim as written fails where it says that the director is always a string: for the
  crew \<^verbatim>\<open>[{"job": "Director"}]\<close> the function returns \<^verbatim>\<open>None\<close>.
\<close>

theorem director_without_name_is_None:
  "get_director sample_loads (Text ''nameless'') = PNone \<and>
   \<not> is_str (get_director sample_loads (Text ''nameless'')) \<and>
   get_director sample_loads (Text ''nameless'') \<noteq> PStr ''Unknown''"
  by (simp add: get_director_def sample_loads_def py_get_def is_str_def)


section \<open>Properties of the rolling averages\<close>

subsection \<open>The loop keeps its dictionaries in step with the rows\<close>

lemma hkey_eq_PStr: "hkey v = Some (PStr s) \<longleftrightarrow> v = PStr s"
  by (cases v) auto

lemma prior_Nil: "prior ent [] k = []"
  by (simp add: prior_def)

lemma prior_snoc:
  "prior ent (pre @ [m]) k =
     prior ent pre k @ (if ent m \<noteq> PStr ''Unknown'' \<and> hkey (ent m) = Some k then [m] else [])"
  by (simp add: prior_def)

lemma prior_Unknown: "prior ent pre (PStr ''Unknown'') = []"
  by (simp add: prior_def hkey_eq_PStr)

lemma means_before_snoc:
  "means_before ent (pre @ [m]) = means_before ent pre @ [mean_before ent pre m]"
  by (simp add: means_before_def nth_append)

lemma length_means_before: "length (means_before ent rows) = length rows"
  by (simp add: means_before_def)

lemma nth_means_before:
  "i < length rows \<Longrightarrow> means_before ent rows ! i = mean_before ent (take i rows) (rows ! i)"
  by (simp add: means_before_def)

lemma ledger_ok_init: "ledger_ok ent [] (Map.empty, Map.empty, [])"
  by (simp add: ledger_ok_def prior_Nil means_before_def)

lemma mean_before_Unknown: "ent m = PStr ''Unknown'' \<Longrightarrow> mean_before ent pre m = 0"
  by (simp add: mean_before_def prior_Unknown)

lemma score_block_unhashable:
  "\<not> hashable d \<Longrightarrow> score_block d r l = Inl TypeError"
  by (cases l) (auto simp: score_block_def hashable_def)

lemma score_block_step:
  assumes ok: "ledger_ok ent pre l" and h: "hashable (ent m)"
  shows "\<exists>l'. score_block (ent m) (revenue_adj m) l = Inr l' \<and> ledger_ok ent (pre @ [m]) l'"
proof -
  obtain e_rev e_count scores where l: "l = (e_rev, e_count, scores)"
    by (cases l)
  from ok have rv: "\<And>k. e_rev k = (if prior ent pre k = [] then None
                        else Some (sum_list (map revenue_adj (prior ent pre k))))"
    and ct: "\<And>k. e_count k = (if prior ent pre k = [] then None
                          else Some (int (length (prior ent pre k))))"
    and sc: "scores = means_before ent pre"
    by (simp_all add: ledger_ok_def l)
  show ?thesis
  proof (cases "ent m = PStr ''Unknown''")
    case True
    then show ?thesis
      using rv ct sc
      by (simp add: score_block_def l ledger_ok_def prior_snoc means_before_snoc mean_before_Unknown)
  next
    case False
    from h obtain k where k: "hkey (ent m) = Some k"
      by (auto simp: hashable_def)
    show ?thesis
    proof (cases "prior ent pre k = []")
      case True
      with False k rv ct sc show ?thesis
        by (simp add: score_block_def l ledger_ok_def prior_snoc means_before_snoc mean_before_def)
    next
      case nonempty: False
      then have pos: "int (length (prior ent pre k)) \<noteq> 0"
        by simp
      from False k rv ct sc nonempty pos show ?thesis
        by (simp add: score_block_def l ledger_ok_def prior_snoc means_before_snoc mean_before_def)
    qed
  qed
qed

lemma state_ok_init: "state_ok [] init_state"
  by (simp add: state_ok_def init_state_def ledger_ok_init)

lemma loop_body_step:
  assumes "state_ok pre st" and "hashable (director m)" and "hashable (top_actor m)"
  shows "\<exists>st'. loop_body st m = Inr st' \<and> state_ok (pre @ [m]) st'"
proof -
  from assms have okd: "ledger_ok director pre (director_rev st, director_count st, dir_scores st)"
    and oka: "ledger_ok top_actor pre (actor_rev st, actor_count st, actor_scores st)"
    by (simp_all add: state_ok_def)
  from score_block_step [OF okd assms(2)] obtain ld where ld: "score_block (director m) (revenue_adj m)
        (director_rev st, director_count st, dir_scores st) = Inr ld"
      "ledger_ok director (pre @ [m]) ld"
    by blast
  from score_block_step [OF oka assms(3)] obtain la where la: "score_block (top_actor m) (revenue_adj m)
        (actor_rev st, actor_count st, actor_scores st) = Inr la"
      "ledger_ok top_actor (pre @ [m]) la"
    by blast
  obtain dr dc ds where d: "ld = (dr, dc, ds)" by (cases ld)
  obtain ar ac as where a: "la = (ar, ac, as)" by (cases la)
  from ld la show ?thesis
    by (simp add: loop_body_def state_ok_def d a)
qed

lemma loop_body_unhashable:
  assumes "state_ok pre st" and "\<not> (hashable (director m) \<and> hashable (top_actor m))"
  shows "loop_body st m = Inl TypeError"
proof (cases "hashable (director m)")
  case False
  then show ?thesis
    by (simp add: loop_body_def score_block_unhashable)
next
  case True
  with assms have na: "\<not> hashable (top_actor m)" by simp
  from assms have okd: "ledger_ok director pre (director_rev st, director_count st, dir_scores st)"
    by (simp add: state_ok_def)
  from score_block_step [OF okd True] obtain ld where "score_block (director m) (revenue_adj m)
        (director_rev st, director_count st, dir_scores st) = Inr ld"
    by blast
  with na show ?thesis
    by (cases ld) (simp add: loop_body_def score_block_unhashable)
qed

lemma run_rows_hashable:
  "state_ok pre st \<Longrightarrow> all_hashable rows \<Longrightarrow>
     \<exists>st'. run_rows st rows = Inr st' \<and> state_ok (pre @ rows) st'"
proof (induction rows arbitrary: pre st)
  case Nil
  then show ?case by simp
next
  case (Cons m rows)
  from Cons.prems obtain st1 where st1: "loop_body st m = Inr st1" "state_ok (pre @ [m]) st1"
    using loop_body_step [of pre st m] by (auto simp: all_hashable_def)
  from Cons.prems have "all_hashable rows" by (simp add: all_hashable_def)
  from Cons.IH [OF st1(2) this] st1(1) show ?case by simp
qed

lemma run_rows_unhashable:
  "state_ok pre st \<Longrightarrow> \<not> all_hashable rows \<Longrightarrow> run_rows st rows = Inl TypeError"
proof (induction rows arbitrary: pre st)
  case Nil
  then show ?case by (simp add: all_hashable_def)
next
  case (Cons m rows)
  show ?case
  proof (cases "hashable (director m) \<and> hashable (top_actor m)")
    case False
    with Cons.prems(1) show ?thesis
      by (simp add: loop_body_unhashable)
  next
    case True
    with Cons.prems obtain st1 where st1: "loop_body st m = Inr st1" "state_ok (pre @ [m]) st1"
      using loop_body_step [of pre st m] by auto
    from True Cons.prems have "\<not> all_hashable rows" by (simp add: all_hashable_def)
    from Cons.IH [OF st1(2) this] st1(1) show ?thesis by simp
  qed
qed

lemma score_loop_hashable:
  "all_hashable rows \<Longrightarrow> \<exists>st. score_loop rows = Inr st \<and> state_ok rows st"
  using run_rows_hashable [OF state_ok_init, of rows] by (simp add: score_loop_def)

lemma score_loop_unhashable:
  "\<not> all_hashable rows \<Longrightarrow> score_loop rows = Inl TypeError"
  using run_rows_unhashable [OF state_ok_init, of rows] by (simp add: score_loop_def)

lemma scaled_scores_hashable:
  "all_hashable rows \<Longrightarrow>
     scaled_scores rows = Inr (map (\<lambda>s. s / 1000000) (means_before director rows),
                               map (\<lambda>s. s / 1000000) (means_before top_actor rows))"
  using score_loop_hashable [of rows]
  by (auto simp: scaled_scores_def state_ok_def ledger_ok_def)

lemma run_rows_append:
  "run_rows st (xs @ ys) = (case run_rows st xs of Inl e \<Rightarrow> Inl e | Inr st' \<Rightarrow> run_rows st' ys)"
  by (induction xs arbitrary: st) (simp_all split: sum.splits)

lemma score_loop_errors: "score_loop rows = Inl e \<Longrightarrow> e = TypeError"
  using score_loop_hashable [of rows] score_loop_unhashable [of rows]
  by (cases "all_hashable rows") auto

lemma ledger_ok_counts:
  assumes "ledger_ok ent pre (e_rev, e_count, scores)" and "e_rev k \<noteq> None"
  shows "\<exists>n. e_count k = Some n \<and> 1 \<le> n"
proof -
  from assms have "prior ent pre k \<noteq> []"
    by (auto simp: ledger_ok_def split: if_splits)
  moreover from this have "1 \<le> int (length (prior ent pre k))"
    by (cases "prior ent pre k") simp_all
  ultimately show ?thesis
    using assms(1) by (simp add: ledger_ok_def)
qed

lemma all_hashable_movies [simp]:
  "all_hashable (movie date d a r # rows) = all_hashable rows" "all_hashable []"
  by (simp_all add: all_hashable_def movie_def hashable_def)

subsection \<open>No division by zero\<close>

text \<open>
  Claim C8. On every list of rows the loop ends without a \<^verbatim>\<open>ZeroDivisionError\<close> (and
  without a \<^verbatim>\<open>KeyError\<close>), and so does the whole step for every sort and every frame.
  Whenever the loop has run over rows that can be keys, every key present in a revenue
  dictionary is present in the matching count dictionary with a count of at least 1. As
  \<open>rows\<close> ranges over every list, this covers the state before each row of every frame,
  which is where the division reads the count; the zero branch is taken exactly for the
  keys that are absent.
\<close>

theorem division_never_by_zero:
  "score_loop rows \<noteq> Inl ZeroDivisionError \<and> score_loop rows \<noteq> Inl KeyError \<and>
   star_power sort_values df \<noteq> Inl ZeroDivisionError \<and>
   (all_hashable rows \<longrightarrow>
      (\<exists>st. score_loop rows = Inr st \<and>
         (\<forall>k. director_rev st k \<noteq> None \<longrightarrow> (\<exists>n. director_count st k = Some n \<and> 1 \<le> n)) \<and>
         (\<forall>k. actor_rev st k \<noteq> None \<longrightarrow> (\<exists>n. actor_count st k = Some n \<and> 1 \<le> n))))"
proof -
  have a: "score_loop xs \<noteq> Inl ZeroDivisionError \<and> score_loop xs \<noteq> Inl KeyError" for xs
    using score_loop_errors [of xs] by auto
  have b: "star_power sort_values df \<noteq> Inl ZeroDivisionError"
    using a [of "sort_values df"]
    by (auto simp: star_power_def scaled_scores_def split: sum.splits)
  have c: "\<exists>st. score_loop rows = Inr st \<and>
         (\<forall>k. director_rev st k \<noteq> None \<longrightarrow> (\<exists>n. director_count st k = Some n \<and> 1 \<le> n)) \<and>
         (\<forall>k. actor_rev st k \<noteq> None \<longrightarrow> (\<exists>n. actor_count st k = Some n \<and> 1 \<le> n))"
    if "all_hashable rows"
  proof -
    from that obtain st where st: "score_loop rows = Inr st" "state_ok rows st"
      using score_loop_hashable by blast
    from st(2) have "\<exists>n. director_count st k = Some n \<and> 1 \<le> n" if "director_rev st k \<noteq> None" for k
      using that ledger_ok_counts [of director rows] unfolding state_ok_def by blast
    moreover from st(2) have "\<exists>n. actor_count st k = Some n \<and> 1 \<le> n" if "actor_rev st k \<noteq> None" for k
      using that ledger_ok_counts [of top_actor rows] unfolding state_ok_def by blast
    ultimately show ?thesis using st(1) by blast
  qed
  from a [of rows] b c show ?thesis by blast
qed

theorem division_never_by_zero_witness:
  "all_hashable [movie ''2001-03-09'' ''A'' ''X'' 100000000, movie ''2004-06-18'' ''A'' ''Y'' 200000000] \<and>
   (\<exists>st. score_loop [movie ''2001-03-09'' ''A'' ''X'' 100000000, movie ''2004-06-18'' ''A'' ''Y'' 200000000] = Inr st \<and>
      (\<forall>k. director_rev st k \<noteq> None \<longrightarrow> (\<exists>n. director_count st k = Some n \<and> 1 \<le> n)) \<and>
      (\<forall>k. actor_rev st k \<noteq> None \<longrightarrow> (\<exists>n. actor_count st k = Some n \<and> 1 \<le> n)))"
proof -
  have h: "all_hashable [movie ''2001-03-09'' ''A'' ''X'' 100000000, movie ''2004-06-18'' ''A'' ''Y'' 200000000]"
    by (simp add: all_hashable_def movie_def hashable_def)
  with division_never_by_zero
    [of "[movie ''2001-03-09'' ''A'' ''X'' 100000000, movie ''2004-06-18'' ''A'' ''Y'' 200000000]" id "[]"]
  show ?thesis by blast
qed

subsection \<open>First appearances and the sentinel\<close>

lemma mean_before_first:
  assumes "\<forall>m\<in>set pre. hkey (ent m) \<noteq> hkey (ent x)"
  shows "mean_before ent pre x = 0"
proof (cases "hkey (ent x)")
  case None
  then show ?thesis by (simp add: mean_before_def)
next
  case (Some k)
  with assms have "prior ent pre k = []"
    by (auto simp: prior_def filter_empty_conv)
  with Some show ?thesis by (simp add: mean_before_def)
qed

lemma means_before_zero:
  assumes "i < length rows"
    and "ent (rows ! i) = PStr ''Unknown'' \<or> (\<forall>j<i. hkey (ent (rows ! j)) \<noteq> hkey (ent (rows ! i)))"
  shows "means_before ent rows ! i = 0"
proof -
  from assms(2) have "mean_before ent (take i rows) (rows ! i) = 0"
  proof
    assume "ent (rows ! i) = PStr ''Unknown''"
    then show ?thesis by (rule mean_before_Unknown)
  next
    assume first: "\<forall>j<i. hkey (ent (rows ! j)) \<noteq> hkey (ent (rows ! i))"
    have "\<forall>m\<in>set (take i rows). hkey (ent m) \<noteq> hkey (ent (rows ! i))"
    proof
      fix m assume "m \<in> set (take i rows)"
      then obtain j where "j < length (take i rows)" "take i rows ! j = m"
        by (auto simp: in_set_conv_nth)
      with assms(1) first show "hkey (ent m) \<noteq> hkey (ent (rows ! i))"
        by auto
    qed
    then show ?thesis by (rule mean_before_first)
  qed
  with assms(1) show ?thesis by (simp add: nth_means_before)
qed

lemma ledger_ok_Unknown:
  "ledger_ok ent pre (e_rev, e_count, scores) \<Longrightarrow>
     e_rev (PStr ''Unknown'') = None \<and> e_count (PStr ''Unknown'') = None"
  by (simp add: ledger_ok_def prior_Unknown)

text \<open>
  Claim C5. For rows that can be keys the loop returns, and in its result: the director
  score of a row is exactly 0, before and after the scaling, when the row's director is
  \<^verbatim>\<open>"Unknown"\<close> or when no earlier row has the same director; likewise for the lead actor
  and the actor score; and \<^verbatim>\<open>"Unknown"\<close> is a key of none of the four dictionaries. As
  \<open>rows\<close> ranges over every list, the sentinel is in no dictionary at any point of a pass.
\<close>

theorem first_and_unknown_score_zero:
  "all_hashable rows \<longrightarrow>
     (\<exists>st ds as. score_loop rows = Inr st \<and> scaled_scores rows = Inr (ds, as) \<and>
        length ds = length rows \<and> length as = length rows \<and>
        (\<forall>i<length rows.
           director (rows ! i) = PStr ''Unknown'' \<or>
           (\<forall>j<i. hkey (director (rows ! j)) \<noteq> hkey (director (rows ! i))) \<longrightarrow>
           dir_scores st ! i = 0 \<and> ds ! i = 0) \<and>
        (\<forall>i<length rows.
           top_actor (rows ! i) = PStr ''Unknown'' \<or>
           (\<forall>j<i. hkey (top_actor (rows ! j)) \<noteq> hkey (top_actor (rows ! i))) \<longrightarrow>
           actor_scores st ! i = 0 \<and> as ! i = 0) \<and>
        director_rev st (PStr ''Unknown'') = None \<and> director_count st (PStr ''Unknown'') = None \<and>
        actor_rev st (PStr ''Unknown'') = None \<and> actor_count st (PStr ''Unknown'') = None)"
proof
  assume h: "all_hashable rows"
  then obtain st where st: "score_loop rows = Inr st" "state_ok rows st"
    using score_loop_hashable by blast
  let ?ds = "map (\<lambda>s. s / 1000000) (means_before director rows)"
  let ?as = "map (\<lambda>s. s / 1000000) (means_before top_actor rows)"
  from h have sc: "scaled_scores rows = Inr (?ds, ?as)"
    by (rule scaled_scores_hashable)
  from st(2) have d: "dir_scores st = means_before director rows"
    and a: "actor_scores st = means_before top_actor rows"
    by (simp_all add: state_ok_def ledger_ok_def)
  have len: "length ?ds = length rows" "length ?as = length rows"
    by (simp_all add: length_means_before)
  have dz: "dir_scores st ! i = 0 \<and> ?ds ! i = 0"
    if "i < length rows" "director (rows ! i) = PStr ''Unknown'' \<or>
           (\<forall>j<i. hkey (director (rows ! j)) \<noteq> hkey (director (rows ! i)))" for i
    using that means_before_zero [of i rows director] by (simp add: d length_means_before)
  have az: "actor_scores st ! i = 0 \<and> ?as ! i = 0"
    if "i < length rows" "top_actor (rows ! i) = PStr ''Unknown'' \<or>
           (\<forall>j<i. hkey (top_actor (rows ! j)) \<noteq> hkey (top_actor (rows ! i)))" for i
    using that means_before_zero [of i rows top_actor] by (simp add: a length_means_before)
  from st(2) have u: "director_rev st (PStr ''Unknown'') = None \<and> director_count st (PStr ''Unknown'') = None"
    "actor_rev st (PStr ''Unknown'') = None \<and> actor_count st (PStr ''Unknown'') = None"
    using ledger_ok_Unknown [of director rows] ledger_ok_Unknown [of top_actor rows]
    unfolding state_ok_def by blast+
  from st(1) sc len dz az u
  show "\<exists>st ds as. score_loop rows = Inr st \<and> scaled_scores rows = Inr (ds, as) \<and>
        length ds = length rows \<and> length as = length rows \<and>
        (\<forall>i<length rows.
           director (rows ! i) = PStr ''Unknown'' \<or>
           (\<forall>j<i. hkey (director (rows ! j)) \<noteq> hkey (director (rows ! i))) \<longrightarrow>
           dir_scores st ! i = 0 \<and> ds ! i = 0) \<and>
        (\<forall>i<length rows.
           top_actor (rows ! i) = PStr ''Unknown'' \<or>
           (\<forall>j<i. hkey (top_actor (rows ! j)) \<noteq> hkey (top_actor (rows ! i))) \<longrightarrow>
           actor_scores st ! i = 0 \<and> as ! i = 0) \<and>
        director_rev st (PStr ''Unknown'') = None \<and> director_count st (PStr ''Unknown'') = None \<and>
        actor_rev st (PStr ''Unknown'') = None \<and> actor_count st (PStr ''Unknown'') = None"
    by blast
qed

theorem first_and_unknown_score_zero_witness:
  "all_hashable [movie ''2001-03-09'' ''A'' ''Unknown'' 100000000,
                 movie ''2004-06-18'' ''Unknown'' ''X'' 200000000,
                 movie ''2007-11-02'' ''A'' ''X'' 300000000] \<and>
   (\<exists>st ds as.
      score_loop [movie ''2001-03-09'' ''A'' ''Unknown'' 100000000,
                  movie ''2004-06-18'' ''Unknown'' ''X'' 200000000,
                  movie ''2007-11-02'' ''A'' ''X'' 300000000] = Inr st \<and>
      scaled_scores [movie ''2001-03-09'' ''A'' ''Unknown'' 100000000,
                     movie ''2004-06-18'' ''Unknown'' ''X'' 200000000,
                     movie ''2007-11-02'' ''A'' ''X'' 300000000] = Inr (ds, as) \<and>
      ds ! 0 = 0 \<and> ds ! 1 = 0 \<and> as ! 0 = 0 \<and> as ! 1 = 0 \<and>
      director_rev st (PStr ''Unknown'') = None \<and> actor_count st (PStr ''Unknown'') = None)"
proof -
  let ?rows = "[movie ''2001-03-09'' ''A'' ''Unknown'' 100000000,
                movie ''2004-06-18'' ''Unknown'' ''X'' 200000000,
                movie ''2007-11-02'' ''A'' ''X'' 300000000]"
  have h: "all_hashable ?rows"
    by (simp add: all_hashable_def movie_def hashable_def)
  with first_and_unknown_score_zero [of ?rows] obtain st ds as where
    run: "score_loop ?rows = Inr st" "scaled_scores ?rows = Inr (ds, as)"
    and d: "\<forall>i<length ?rows.
           director (?rows ! i) = PStr ''Unknown'' \<or>
           (\<forall>j<i. hkey (director (?rows ! j)) \<noteq> hkey (director (?rows ! i))) \<longrightarrow>
           dir_scores st ! i = 0 \<and> ds ! i = 0"
    and a: "\<forall>i<length ?rows.
           top_actor (?rows ! i) = PStr ''Unknown'' \<or>
           (\<forall>j<i. hkey (top_actor (?rows ! j)) \<noteq> hkey (top_actor (?rows ! i))) \<longrightarrow>
           actor_scores st ! i = 0 \<and> as ! i = 0"
    and u: "director_rev st (PStr ''Unknown'') = None" "actor_count st (PStr ''Unknown'') = None"
    by blast
  from d [rule_format, of 0] have d0: "ds ! 0 = 0" by simp
  from d [rule_format, of 1] have d1: "ds ! 1 = 0" by (simp add: movie_def)
  from a [rule_format, of 0] have a0: "as ! 0 = 0" by simp
  from a [rule_format, of 1] have a1: "as ! 1 = 0" by (simp add: movie_def)
  from h run d0 d1 a0 a1 u show ?thesis by blast
qed

subsection \<open>The scenario of three films\<close>

lemma sorted_by_date_unique:
  assumes srt: "sorts_by_date sort_values" and m: "mset df = mset rows"
    and s: "sorted (map release_date rows)" and d: "distinct (map release_date rows)"
  shows "sort_values df = rows"
proof -
  let ?ys = "sort_values df"
  from srt have ys: "sorted (map release_date ?ys)" "mset ?ys = mset df"
    by (simp_all add: sorts_by_date_def)
  with m have mm: "mset (map release_date ?ys) = mset (map release_date rows)"
    by simp
  from mm ys(1) have "sort (map release_date rows) = map release_date ?ys"
    by (rule properties_for_sort)
  moreover from s have "sort (map release_date rows) = map release_date rows"
    by (simp add: sort_key_id_if_sorted)
  ultimately have eq: "map release_date ?ys = map release_date rows"
    by simp
  from ys(2) m have "set ?ys = set rows"
    by (metis mset_eq_setD)
  moreover from d have "inj_on release_date (set rows)"
    by (simp add: distinct_map)
  ultimately have "inj_on release_date (set ?ys \<union> set rows)"
    by simp
  with eq show ?thesis
    by (simp add: inj_on_map_eq_map)
qed

lemma sorts_by_date_sort_key: "sorts_by_date (sort_key release_date)"
  by (simp add: sorts_by_date_def)

text \<open>
  Claim C3. Take any sort that returns the frame's rows in ascending date order, and a
  frame made of three rows of director A with revenues 100, 200 and 300 million, released
  in that order, and a row of director B released after them. The director scores, in
  release order and in millions, are 0, 100, 150 and 0.
\<close>

theorem three_films_then_a_newcomer:
  assumes "sorts_by_date sort_values" and "d1 < d2" and "d2 < d3" and "d3 < d4"
    and "mset df = mset [movie d1 ''A'' a1 100000000, movie d2 ''A'' a2 200000000,
                         movie d3 ''A'' a3 300000000, movie d4 ''B'' a4 r]"
  shows "\<exists>as. star_power sort_values df = Inr ([0, 100, 150, 0], as)"
proof -
  let ?rows = "[movie d1 ''A'' a1 100000000, movie d2 ''A'' a2 200000000,
                movie d3 ''A'' a3 300000000, movie d4 ''B'' a4 r]"
  from assms(2-4) have "sorted (map release_date ?rows)" "distinct (map release_date ?rows)"
    by (auto simp: movie_def)
  with assms(1,5) have "sort_values df = ?rows"
    by (rule sorted_by_date_unique)
  moreover have "all_hashable ?rows"
    by simp
  moreover have "map (\<lambda>s. s / 1000000) (means_before director ?rows) = [0, 100, 150, 0]"
    by (simp add: means_before_def mean_before_def prior_def movie_def)
  ultimately show ?thesis
    by (simp add: star_power_def scaled_scores_hashable)
qed

theorem three_films_then_a_newcomer_witness:
  "sorts_by_date (sort_key release_date) \<and>
   ''2001-03-09'' < ''2004-06-18'' \<and> ''2004-06-18'' < ''2007-11-02'' \<and> ''2007-11-02'' < ''2010-07-16'' \<and>
   (\<exists>as. star_power (sort_key release_date)
      [movie ''2010-07-16'' ''B'' ''Z'' 40000000, movie ''2001-03-09'' ''A'' ''X'' 100000000,
       movie ''2007-11-02'' ''A'' ''X'' 300000000, movie ''2004-06-18'' ''A'' ''Y'' 200000000]
      = Inr ([0, 100, 150, 0], as))"
proof -
  have o: "''2001-03-09'' < ''2004-06-18''" "''2004-06-18'' < ''2007-11-02''"
    "''2007-11-02'' < ''2010-07-16''"
    by simp_all
  have m: "mset [movie ''2010-07-16'' ''B'' ''Z'' 40000000, movie ''2001-03-09'' ''A'' ''X'' 100000000,
       movie ''2007-11-02'' ''A'' ''X'' 300000000, movie ''2004-06-18'' ''A'' ''Y'' 200000000] =
     mset [movie ''2001-03-09'' ''A'' ''X'' 100000000, movie ''2004-06-18'' ''A'' ''Y'' 200000000,
       movie ''2007-11-02'' ''A'' ''X'' 300000000, movie ''2010-07-16'' ''B'' ''Z'' 40000000]"
    by (simp add: add_mset_commute)
  from three_films_then_a_newcomer [OF sorts_by_date_sort_key o m] o sorts_by_date_sort_key
  show ?thesis by blast
qed

subsection \<open>A score reads the earlier rows only\<close>















end
